theory Spec2Isabelle
  imports Main
begin

section \<open>JavaScript values\<close>

text \<open>
  The command objects handed to the script renderer are plain JavaScript objects whose
  properties may hold any value. The values that matter here are \<open>undefined\<close> (the
  property is absent), \<open>null\<close>, booleans, numbers and strings. Numbers are restricted
  to the integers whose \<open>ToString\<close> is the plain decimal numeral. Strings are lists of
  characters; a character stands for one code unit.
\<close>

datatype jsval = JUndefined | JNull | JBool bool | JNum int | JStr string

text \<open>An exception: the constructor that was thrown and its message.\<close>

datatype js_error = TypeError string | Error string

fun truthy :: "jsval \<Rightarrow> bool" where
  "truthy JUndefined = False"
| "truthy JNull = False"
| "truthy (JBool b) = b"
| "truthy (JNum n) = (n \<noteq> 0)"
| "truthy (JStr s) = (s \<noteq> [])"

text \<open>The decimal numeral of a number, as \<open>ToString\<close> writes an integer.\<close>

function string_of_nat :: "nat \<Rightarrow> string" where
  "string_of_nat n =
     (if n < 10 then [''0123456789'' ! n]
      else string_of_nat (n div 10) @ [''0123456789'' ! (n mod 10)])"
  by pat_completeness auto
termination
  by (relation "measure id") auto

declare string_of_nat.simps [simp del]

definition string_of_int :: "int \<Rightarrow> string" where
  "string_of_int i = (if i < 0 then CHR ''-'' # string_of_nat (nat (- i)) else string_of_nat (nat i))"

text \<open>\<open>ToString\<close>, as applied by the interpolation \<^verbatim>\<open>${v}\<close> of a template literal.\<close>

fun toString :: "jsval \<Rightarrow> string" where
  "toString JUndefined = ''undefined''"
| "toString JNull = ''null''"
| "toString (JBool b) = (if b then ''true'' else ''false'')"
| "toString (JNum n) = string_of_int n"
| "toString (JStr s) = s"

text \<open>Sequencing of computations that may throw.\<close>

definition bind_res :: "'e + 'a \<Rightarrow> ('a \<Rightarrow> 'e + 'b) \<Rightarrow> 'e + 'b" where
  "bind_res r f = (case r of Inl e \<Rightarrow> Inl e | Inr x \<Rightarrow> f x)"

section \<open>The Autorun XML generator\<close>

text \<open>
  \<^verbatim>\<open>str.replace(/c/g, r)\<close> for a pattern that is one literal character: every
  occurrence of the character is replaced by \<open>r\<close>, left to right.
\<close>

definition replace_char :: "char \<Rightarrow> string \<Rightarrow> string \<Rightarrow> string" where
  "replace_char c r s = concat (map (\<lambda>x. if x = c then r else [x]) s)"

text \<open>The chain of five replacements of \<^verbatim>\<open>escapeXml\<close>, on a string.\<close>

definition escape_chain :: "string \<Rightarrow> string" where
  \<open>escape_chain str =
     replace_char (CHR 0x27) ''&apos;''
       (replace_char (CHR ''"'') ''&quot;''
         (replace_char (CHR ''>'') ''&gt;''
           (replace_char (CHR ''<'') ''&lt;''
             (replace_char (CHR ''&'') ''&amp;'' str))))\<close>

text \<open>
  \<^verbatim>\<open>escapeXml(str)\<close>: a falsy argument gives the empty string; a truthy argument
  that is not a string has no \<^verbatim>\<open>replace\<close> method, and the call throws.
\<close>

fun escapeXml :: "jsval \<Rightarrow> js_error + string" where
  "escapeXml (JStr s) = (if s = [] then Inr [] else Inr (escape_chain s))"
| "escapeXml v =
     (if \<not> truthy v then Inr [] else Inl (TypeError ''str.replace is not a function''))"

record command =
  type :: jsval
  file' :: jsval
  name :: jsval
  templatefile :: jsval
  title :: jsval
  version :: jsval
  snapshots :: jsval

text \<open>
  One round of the loop of \<^verbatim>\<open>generateXml\<close>: the line pushed for a command, or
  \<open>None\<close> for an unknown type (which only logs a warning).
\<close>

definition command_line :: "command \<Rightarrow> js_error + string option" where
  \<open>command_line cmd =
    (if type cmd = JStr ''openmodel'' then
       bind_res (escapeXml (file' cmd)) (\<lambda>f. Inr (Some (''  <openmodel file="'' @ f @ ''" />'')))
     else if type cmd = JStr ''updatemodel'' then
       bind_res (escapeXml (file' cmd)) (\<lambda>f. Inr (Some (''  <updatemodel file="'' @ f @ ''" />'')))
     else if type cmd = JStr ''savemodel'' then
       bind_res (escapeXml (file' cmd)) (\<lambda>f. Inr (Some (''  <savemodel file="'' @ f @ ''" />'')))
     else if type cmd = JStr ''openclassification'' then
       bind_res (escapeXml (file' cmd))
         (\<lambda>f. Inr (Some (''  <openclassification file="'' @ f @ ''" />'')))
     else if type cmd = JStr ''openruleset'' then
       bind_res (escapeXml (file' cmd)) (\<lambda>f. Inr (Some (''  <openruleset file="'' @ f @ ''" />'')))
     else if type cmd = JStr ''openito'' then
       bind_res (escapeXml (file' cmd)) (\<lambda>f. Inr (Some (''  <openito file="'' @ f @ ''" />'')))
     else if type cmd = JStr ''check'' then Inr (Some ''  <check />'')
     else if type cmd = JStr ''takeoff'' then
       (if truthy (name cmd) then
          bind_res (escapeXml (name cmd)) (\<lambda>n. Inr (Some (''  <takeoff name="'' @ n @ ''" />'')))
        else Inr (Some ''  <takeoff />''))
     else if type cmd = JStr ''itoreport'' then
       bind_res (escapeXml (file' cmd)) (\<lambda>f.
       bind_res (if truthy (templatefile cmd) then
                   bind_res (escapeXml (templatefile cmd))
                     (\<lambda>t. Inr ((''file="'' @ f @ ''"'') @ '' templatefile="'' @ t @ ''"''))
                 else Inr (''file="'' @ f @ ''"'')) (\<lambda>attrs1.
       bind_res (if truthy (title cmd) then
                   bind_res (escapeXml (title cmd))
                     (\<lambda>t. Inr (attrs1 @ '' title="'' @ t @ ''"''))
                 else Inr attrs1) (\<lambda>attrs2.
       bind_res (if truthy (name cmd) then
                   bind_res (escapeXml (name cmd))
                     (\<lambda>n. Inr (attrs2 @ '' name="'' @ n @ ''"''))
                 else Inr attrs2) (\<lambda>itoReportAttrs.
       Inr (Some (''  <itoreport '' @ itoReportAttrs @ '' />''))))))
     else if type cmd = JStr ''bcfreport'' then
       bind_res (escapeXml (file' cmd)) (\<lambda>f.
       let bcfAttrs = (if truthy (version cmd)
                       then (''file="'' @ f @ ''"'') @ '' version="'' @ toString (version cmd) @ ''"''
                       else ''file="'' @ f @ ''"'')
       in Inr (Some (''  <bcfreport '' @ bcfAttrs @ '' />'')))
     else if type cmd = JStr ''createpresentation'' then Inr (Some ''  <createpresentation />'')
     else if type cmd = JStr ''updatepresentation'' then Inr (Some ''  <updatepresentation />'')
     else if type cmd = JStr ''autocomment'' then
       (let acAttrs = (if snapshots cmd \<noteq> JUndefined
                       then '' snapshots="'' @ toString (snapshots cmd) @ ''"''
                       else '''')
        in Inr (Some (''  <autocomment'' @ acAttrs @ '' />'')))
     else if type cmd = JStr ''autoupdatemodels'' then Inr (Some ''  <autoupdatemodels />'')
     else if type cmd = JStr ''exit'' then Inr (Some ''  <exit />'')
     else Inr None)\<close>

text \<open>The loop over the commands; \<open>lines\<close> is the array built so far.\<close>

fun generateXml_loop :: "command list \<Rightarrow> string list \<Rightarrow> js_error + string list" where
  "generateXml_loop [] lines = Inr lines"
| "generateXml_loop (cmd # cmds) lines =
     (case command_line cmd of
        Inl e \<Rightarrow> Inl e
      | Inr None \<Rightarrow> generateXml_loop cmds lines
      | Inr (Some l) \<Rightarrow> generateXml_loop cmds (lines @ [l]))"

text \<open>\<^verbatim>\<open>lines.join(sep)\<close>.\<close>

fun join :: "string \<Rightarrow> string list \<Rightarrow> string" where
  "join sep [] = []"
| "join sep [x] = x"
| "join sep (x # y # ys) = x @ sep @ join sep (y # ys)"

definition generateXml :: "command list \<Rightarrow> js_error + string" where
  \<open>generateXml commands =
     (case generateXml_loop commands [''<?xml version="1.0" encoding="UTF-8"?>'', ''<autorun>''] of
        Inl e \<Rightarrow> Inl e
      | Inr lines \<Rightarrow> Inr (join ''\<newline>'' (lines @ [''</autorun>''])))\<close>

text \<open>
  Decoding of the five predefined entities, in one pass from the left: the reading of
  "unescaped" against which the output of \<^verbatim>\<open>escapeXml\<close> is compared. The
  repository has no such function.
\<close>

fun unescapeXml :: "string \<Rightarrow> string" where
  "unescapeXml [] = []"
| "unescapeXml (c # cs) =
     (if c = CHR ''&'' then
        (if take 4 cs = ''amp;'' then CHR ''&'' # unescapeXml (drop 4 cs)
         else if take 3 cs = ''lt;'' then CHR ''<'' # unescapeXml (drop 3 cs)
         else if take 3 cs = ''gt;'' then CHR ''>'' # unescapeXml (drop 3 cs)
         else if take 5 cs = ''quot;'' then CHR 0x22 # unescapeXml (drop 5 cs)
         else if take 5 cs = ''apos;'' then CHR 0x27 # unescapeXml (drop 5 cs)
         else c # unescapeXml cs)
      else c # unescapeXml cs)"

text \<open>An object with every property absent.\<close>

definition no_fields :: command where
  "no_fields = \<lparr>type = JUndefined, file' = JUndefined, name = JUndefined,
     templatefile = JUndefined, title = JUndefined, version = JUndefined,
     snapshots = JUndefined\<rparr>"

text \<open>
  A field value that \<^verbatim>\<open>escapeXml\<close> accepts: a string, or a falsy value (among them
  the absent field).
\<close>

definition str_or_falsy :: "jsval \<Rightarrow> bool" where
  "str_or_falsy v = (case v of JStr s \<Rightarrow> True | _ \<Rightarrow> \<not> truthy v)"

definition missing_or_text :: "command \<Rightarrow> bool" where
  "missing_or_text cmd \<longleftrightarrow>
     str_or_falsy (file' cmd) \<and> str_or_falsy (name cmd) \<and>
     str_or_falsy (templatefile cmd) \<and> str_or_falsy (title cmd)"

subsection \<open>Reading the attributes of a rendered element\<close>







definition example_operations :: "command list" where
  "example_operations =
     [no_fields\<lparr>type := JStr ''openmodel'', file' := JStr ''a.ifc''\<rparr>,
      no_fields\<lparr>type := JStr ''openruleset'', file' := JStr ''r.cset''\<rparr>,
      no_fields\<lparr>type := JStr ''check''\<rparr>,
      no_fields\<lparr>type := JStr ''bcfreport'', file' := JStr ''out.bcf'', version := JStr ''2.1''\<rparr>,
      no_fields\<lparr>type := JStr ''exit''\<rparr>]"

section \<open>Configuration and file system\<close>

text \<open>
  The configuration module, flattened: \<^verbatim>\<open>config.SOLIBRI.*\<close>, \<^verbatim>\<open>config.AUTORUN.*\<close>
  and \<^verbatim>\<open>config.SSE.authToken\<close>.
\<close>

record config =
  exePath :: string
  restApiPort :: int
  autorunDir :: string
  outputDir :: string
  classificationsDir :: string
  rulesetsDir :: string
  itoDir :: string
  templatesDir :: string
  timeout :: int
  keepXmlFiles :: bool
  authToken :: string

text \<open>
  The file system as far as the program looks at it: a path leads to a file with its
  content, to a directory with the names of its entries, or nowhere.
\<close>

datatype fnode = File string | Dir "string list"

type_synonym filesystem = "string \<Rightarrow> fnode option"

definition existsSync :: "filesystem \<Rightarrow> string \<Rightarrow> bool" where
  "existsSync fs p = (fs p \<noteq> None)"

text \<open>\<^verbatim>\<open>fs.mkdirSync(dir, { recursive: true })\<close> and \<^verbatim>\<open>fs.writeFileSync\<close>, taken to succeed.\<close>

definition mkdirSync :: "filesystem \<Rightarrow> string \<Rightarrow> filesystem" where
  "mkdirSync fs p = fs(p \<mapsto> Dir [])"

definition writeFileSync :: "filesystem \<Rightarrow> string \<Rightarrow> string \<Rightarrow> filesystem" where
  "writeFileSync fs p content = fs(p \<mapsto> File content)"

text \<open>\<^verbatim>\<open>fs.unlinkSync\<close> throws when the path is missing or is a directory.\<close>

definition unlinkSync :: "filesystem \<Rightarrow> string \<Rightarrow> js_error + filesystem" where
  "unlinkSync fs p =
     (case fs p of
        None \<Rightarrow> Inl (Error ''ENOENT: no such file or directory'')
      | Some (Dir es) \<Rightarrow> Inl (Error ''EPERM: operation not permitted'')
      | Some (File c) \<Rightarrow> Inr (fs(p := None)))"


definition ensureDir :: "filesystem \<Rightarrow> string \<Rightarrow> filesystem" where
  "ensureDir fs dir = (if \<not> existsSync fs dir then mkdirSync fs dir else fs)"

section \<open>Executing Solibri with an Autorun script\<close>

text \<open>The value the promise of \<^verbatim>\<open>executeAutorun\<close> resolves with.\<close>

record autorun_result =
  jobId :: string
  success :: bool
  code :: int
  stdout :: string
  stderr :: string

text \<open>A settled promise: resolved with a result, or rejected with an error.\<close>

datatype settlement = Resolved autorun_result | Rejected js_error

text \<open>
  The state of one call after the process has been spawned: the variables of the
  closure (\<^verbatim>\<open>jobId\<close>, \<^verbatim>\<open>xmlPath\<close>, \<^verbatim>\<open>args\<close>, \<^verbatim>\<open>stdout\<close>, \<^verbatim>\<open>stderr\<close>), whether the
  timer \<^verbatim>\<open>timeout\<close> is still pending, the signals sent to the process with
  \<^verbatim>\<open>proc.kill\<close>, the state of the promise (\<open>None\<close> while pending) and the file system.
\<close>

record job =
  job_id :: string
  xml_path :: string
  args :: "string list"
  out_buf :: string
  err_buf :: string
  timer_pending :: bool
  signals :: "string list"
  promise :: "settlement option"
  files :: filesystem

text \<open>
  \<^verbatim>\<open>resolve\<close> and \<^verbatim>\<open>reject\<close> of a promise: the first call settles it, every later
  call does nothing.
\<close>

definition settle :: "settlement \<Rightarrow> job \<Rightarrow> job" where
  "settle s j = (case promise j of None \<Rightarrow> j\<lparr>promise := Some s\<rparr> | Some old \<Rightarrow> j)"

text \<open>
  What the event loop delivers to one call: a chunk on either stream, the expiry of the
  timer, the \<open>close\<close> of the process with its exit code (\<open>None\<close> for \<^verbatim>\<open>null\<close>, when
  a signal ended it), or an \<open>error\<close> of the process with its message.
\<close>

datatype event =
  StdoutData string | StderrData string | TimerFired | Close "int option" | ProcError string

text \<open>The part of \<^verbatim>\<open>executeAutorun\<close> that runs before any event: up to the timer.\<close>

definition executeAutorun ::
  "config \<Rightarrow> (string \<Rightarrow> string \<Rightarrow> string) \<Rightarrow> string \<Rightarrow> filesystem \<Rightarrow> command list \<Rightarrow> jsval
     \<Rightarrow> js_error + job" where
  "executeAutorun cfg path_join uuid fs commands enableRestApi =
     (let fs1 = ensureDir fs (autorunDir cfg);
          fs2 = ensureDir fs1 (outputDir cfg);
          xmlPath = path_join (autorunDir cfg) (uuid @ ''.xml'')
      in bind_res (generateXml commands) (\<lambda>xml.
         let fs3 = writeFileSync fs2 xmlPath xml;
             args0 = [''--autorun'', xmlPath];
             args1 = (if truthy enableRestApi
                      then args0 @ [''--rest-api-server-port='' @ string_of_int (restApiPort cfg),
                                    ''--rest-api-server-http'']
                      else args0)
         in Inr \<lparr>job_id = uuid, xml_path = xmlPath, args = args1, out_buf = [], err_buf = [],
                  timer_pending = True, signals = [], promise = None, files = fs3\<rparr>))"

text \<open>The cleanup in the \<open>close\<close> handler: errors of \<^verbatim>\<open>unlinkSync\<close> are caught.\<close>

definition cleanup :: "config \<Rightarrow> job \<Rightarrow> job" where
  "cleanup cfg j =
     (if \<not> keepXmlFiles cfg then
        (case unlinkSync (files j) (xml_path j) of
           Inr fs' \<Rightarrow> j\<lparr>files := fs'\<rparr>
         | Inl e \<Rightarrow> j)
      else j)"

text \<open>The exit code in a template literal: a number, or \<^verbatim>\<open>null\<close>.\<close>

definition code_string :: "int option \<Rightarrow> string" where
  "code_string c = (case c of None \<Rightarrow> ''null'' | Some n \<Rightarrow> string_of_int n)"

text \<open>
  The handlers. A timer that was cleared, or that has fired, does not fire (again).
\<close>

fun on_event :: "config \<Rightarrow> event \<Rightarrow> job \<Rightarrow> job" where
  "on_event cfg (StdoutData d) j = j\<lparr>out_buf := out_buf j @ d\<rparr>"
| "on_event cfg (StderrData d) j = j\<lparr>err_buf := err_buf j @ d\<rparr>"
| "on_event cfg TimerFired j =
     (if timer_pending j then
        settle (Rejected (Error (''Autorun timed out after '' @ string_of_int (timeout cfg) @ ''ms'')))
          (j\<lparr>timer_pending := False, signals := signals j @ [''SIGTERM'']\<rparr>)
      else j)"
| "on_event cfg (Close c) j =
     (let j1 = cleanup cfg (j\<lparr>timer_pending := False\<rparr>)
      in if c = Some 0 then
           settle (Resolved \<lparr>jobId = job_id j1, success = True, code = 0,
                             stdout = out_buf j1, stderr = err_buf j1\<rparr>) j1
         else
           settle (Rejected (Error (''Autorun exited with code '' @ code_string c @ '': '' @
                     (if err_buf j1 \<noteq> [] then err_buf j1 else out_buf j1)))) j1)"
| "on_event cfg (ProcError msg) j =
     settle (Rejected (Error (''Failed to start Solibri: '' @ msg))) (j\<lparr>timer_pending := False\<rparr>)"

fun run_events :: "config \<Rightarrow> event list \<Rightarrow> job \<Rightarrow> job" where
  "run_events cfg [] j = j"
| "run_events cfg (e # es) j = run_events cfg es (on_event cfg e j)"

text \<open>How many events of a run change the state of the promise.\<close>

fun settlements :: "config \<Rightarrow> event list \<Rightarrow> job \<Rightarrow> nat" where
  "settlements cfg [] j = 0"
| "settlements cfg (e # es) j =
     (if promise (on_event cfg e j) \<noteq> promise j then 1 else 0)
       + settlements cfg es (on_event cfg e j)"

fun is_data :: "event \<Rightarrow> bool" where
  "is_data (StdoutData d) = True"
| "is_data (StderrData d) = True"
| "is_data e = False"

text \<open>What a run of chunks leaves in the two buffers.\<close>

fun captured_stdout :: "event list \<Rightarrow> string" where
  "captured_stdout [] = []"
| "captured_stdout (StdoutData d # es) = d @ captured_stdout es"
| "captured_stdout (e # es) = captured_stdout es"

fun captured_stderr :: "event list \<Rightarrow> string" where
  "captured_stderr [] = []"
| "captured_stderr (StderrData d # es) = d @ captured_stderr es"
| "captured_stderr (e # es) = captured_stderr es"

text \<open>A configuration and a way of joining paths, for the examples.\<close>

definition test_config :: config where
  "test_config = \<lparr>exePath = ''solibri'', restApiPort = 10876, autorunDir = ''autorun'',
     outputDir = ''output'', classificationsDir = ''cls'', rulesetsDir = ''rules'',
     itoDir = ''ito'', templatesDir = ''tpl'', timeout = 1800000, keepXmlFiles = False,
     authToken = ''secret''\<rparr>"

definition slash_join :: "string \<Rightarrow> string \<Rightarrow> string" where
  "slash_join d f = d @ ''/'' @ f"

definition empty_fs :: filesystem where
  "empty_fs = (\<lambda>p. None)"

text \<open>The script of the example operations, and the state after launching them.\<close>

definition example_script :: string where
  \<open>example_script = ''<?xml version="1.0" encoding="UTF-8"?>\<newline><autorun>\<newline>  <openmodel file="a.ifc" />\<newline>  <openruleset file="r.cset" />\<newline>  <check />\<newline>  <bcfreport file="out.bcf" version="2.1" />\<newline>  <exit />\<newline></autorun>''\<close>

definition example_job :: job where
  "example_job =
     \<lparr>job_id = ''j1'', xml_path = ''autorun/j1.xml'', args = [''--autorun'', ''autorun/j1.xml''],
      out_buf = [], err_buf = [], timer_pending = True, signals = [], promise = None,
      files = writeFileSync (ensureDir (ensureDir empty_fs ''autorun'') ''output'')
                ''autorun/j1.xml'' example_script\<rparr>"

section \<open>The SSE server: authentication and the messages endpoint\<close>





text \<open>
  The \<^verbatim>\<open>Map\<close> of active transports, in insertion order: transports and servers are
  named by numbers.
\<close>

type_synonym transports = "(nat \<times> nat) list"


definition transports_delete :: "nat \<Rightarrow> transports \<Rightarrow> transports" where
  "transports_delete t m = filter (\<lambda>(k, v). k \<noteq> t) m"



section \<open>The REST client: waiting for Solibri to become idle\<close>

text \<open>
  What one call of \<^verbatim>\<open>isBusy\<close> gives: the remote status reports \<^verbatim>\<open>busy === true\<close>,
  it reports anything else, or the request throws.
\<close>

datatype poll = Busy | Idle | Failed string

text \<open>
  The surroundings of \<^verbatim>\<open>waitUntilIdle\<close>, by round of its loop: the answer of the
  poll, the milliseconds the poll takes, and the milliseconds by which the sleep
  overruns the delay it asked for.
\<close>

record remote =
  poll_result :: "nat \<Rightarrow> poll"
  poll_millis :: "nat \<Rightarrow> int"
  sleep_overrun :: "nat \<Rightarrow> int"

text \<open>
  The delay that \<^verbatim>\<open>setTimeout\<close> uses: a delay below 1 or above \<open>2\<^sup>3\<^sup>1 - 1\<close>
  is set to 1.
\<close>

definition timer_delay :: "int \<Rightarrow> int" where
  "timer_delay ms = (if ms < 1 \<or> 2147483647 < ms then 1 else ms)"

text \<open>
  What a call reports: the value returned or the error thrown, the clock when it
  finished, the number of polls it made and the delays it passed to \<^verbatim>\<open>setTimeout\<close>.
\<close>

record wait_report =
  outcome :: "js_error + bool"
  finished_at :: int
  polls :: nat
  sleeps :: "int list"

text \<open>
  The loop, with the clock explicit: \<open>now\<close> is what \<^verbatim>\<open>Date.now()\<close> reads at the
  test of the loop, \<open>i\<close> counts the rounds so far. A run that never ends has no report.
\<close>

partial_function (option) waitLoop ::
  "remote \<Rightarrow> int \<Rightarrow> int \<Rightarrow> int \<Rightarrow> int \<Rightarrow> nat \<Rightarrow> int list \<Rightarrow> wait_report option" where
  "waitLoop env timeoutMs pollIntervalMs start now i slept =
     (if now - start < timeoutMs then
        (case poll_result env i of
           Failed msg \<Rightarrow>
             Some \<lparr>outcome = Inl (Error msg), finished_at = now + poll_millis env i,
                    polls = Suc i, sleeps = slept\<rparr>
         | Idle \<Rightarrow>
             Some \<lparr>outcome = Inr True, finished_at = now + poll_millis env i,
                    polls = Suc i, sleeps = slept\<rparr>
         | Busy \<Rightarrow>
             waitLoop env timeoutMs pollIntervalMs start
               (now + poll_millis env i + timer_delay pollIntervalMs + sleep_overrun env i)
               (Suc i) (slept @ [pollIntervalMs]))
      else
        Some \<lparr>outcome = Inl (Error (''Solibri did not become idle within '' @
                  string_of_int timeoutMs @ ''ms'')),
               finished_at = now, polls = i, sleeps = slept\<rparr>)"

definition waitUntilIdle :: "remote \<Rightarrow> int \<Rightarrow> int \<Rightarrow> int \<Rightarrow> wait_report option" where
  "waitUntilIdle env timeoutMs pollIntervalMs start =
     waitLoop env timeoutMs pollIntervalMs start start 0 []"

text \<open>The clock at the test that opens round \<open>k\<close>, when all rounds before it were busy.\<close>

fun check_time :: "remote \<Rightarrow> int \<Rightarrow> int \<Rightarrow> nat \<Rightarrow> int" where
  "check_time env pollIntervalMs start 0 = start"
| "check_time env pollIntervalMs start (Suc k) =
     check_time env pollIntervalMs start k + poll_millis env k
       + timer_delay pollIntervalMs + sleep_overrun env k"

text \<open>Polls and sleeps take time, never give it back.\<close>

definition time_passes :: "remote \<Rightarrow> bool" where
  "time_passes env \<longleftrightarrow> (\<forall>i. 0 \<le> poll_millis env i \<and> 0 \<le> sleep_overrun env i)"

text \<open>
  Two remotes for the examples: one that is busy for two polls and idle from the third,
  one that is busy forever; each poll takes 5 ms and no sleep overruns.
\<close>

definition idle_at_third :: remote where
  "idle_at_third =
     \<lparr>poll_result = (\<lambda>i. if i < 2 then Busy else Idle), poll_millis = (\<lambda>i. 5),
      sleep_overrun = (\<lambda>i. 0)\<rparr>"

definition always_busy :: remote where
  "always_busy =
     \<lparr>poll_result = (\<lambda>i. Busy), poll_millis = (\<lambda>i. 5), sleep_overrun = (\<lambda>i. 0)\<rparr>"

section \<open>Listing assets\<close>














section \<open>Properties of the XML generator\<close>

lemma bind_res_simps [simp]:
  "bind_res (Inl e) f = Inl e" "bind_res (Inr x) f = f x"
  by (simp_all add: bind_res_def)

lemma bind_res_eq_Inr: "bind_res r f = Inr y \<longleftrightarrow> (\<exists>x. r = Inr x \<and> f x = Inr y)"
  by (cases r) simp_all

lemma replace_char_Nil [simp]: "replace_char c r [] = []"
  by (simp add: replace_char_def)

lemma replace_char_Cons [simp]:
  "replace_char c r (x # xs) = (if x = c then r else [x]) @ replace_char c r xs"
  by (simp add: replace_char_def)

lemma escape_chain_Nil [simp]: "escape_chain [] = []"
  by (simp add: escape_chain_def)

lemma escape_chain_Cons:
  "escape_chain (x # xs) = escape_chain [x] @ escape_chain xs"
  by (simp add: escape_chain_def replace_char_def)

lemma escape_chain_single:
  \<open>escape_chain [x] =
     (if x = CHR ''&'' then ''&amp;''
      else if x = CHR ''<'' then ''&lt;''
      else if x = CHR ''>'' then ''&gt;''
      else if x = CHR ''"'' then ''&quot;''
      else if x = CHR 0x27 then ''&apos;''
      else [x])\<close>
  by (simp add: escape_chain_def)

lemma unescape_single: "unescapeXml (escape_chain [x] @ r) = x # unescapeXml r"
  by (simp add: escape_chain_single)

lemma unescape_escape_chain: "unescapeXml (escape_chain s) = s"
proof (induction s)
  case Nil
  show ?case by simp
next
  case (Cons x xs)
  have "unescapeXml (escape_chain (x # xs)) = unescapeXml (escape_chain [x] @ escape_chain xs)"
    by (subst escape_chain_Cons) simp
  also have "\<dots> = x # unescapeXml (escape_chain xs)"
    by (rule unescape_single)
  finally show ?case using Cons.IH by simp
qed

text \<open>
  Claim C8. For every string \<open>s\<close>, \<^verbatim>\<open>escapeXml\<close> returns an escaped form, and
  decoding the five entities in that form gives \<open>s\<close> back.
\<close>

theorem escapeXml_roundtrip: "\<exists>e. escapeXml (JStr s) = Inr e \<and> unescapeXml e = s"
  by (cases "s = []") (simp_all add: unescape_escape_chain)

subsection \<open>Missing fields\<close>

lemma escapeXml_falsy: "\<not> truthy v \<Longrightarrow> escapeXml v = Inr []"
  by (cases v) simp_all

lemma escapeXml_total: "str_or_falsy v \<Longrightarrow> \<exists>e. escapeXml v = Inr e"
  by (cases v) (simp_all add: str_or_falsy_def)

lemma command_line_total:
  assumes "missing_or_text cmd"
  shows "\<exists>r. command_line cmd = Inr r"
proof -
  obtain f n t ti where e:
    "escapeXml (file' cmd) = Inr f" "escapeXml (name cmd) = Inr n"
    "escapeXml (templatefile cmd) = Inr t" "escapeXml (title cmd) = Inr ti"
    using assms escapeXml_total unfolding missing_or_text_def by metis
  show ?thesis
    by (simp add: command_line_def e Let_def)
qed

lemma generateXml_loop_total:
  "\<forall>c \<in> set cmds. missing_or_text c \<Longrightarrow> \<exists>ls. generateXml_loop cmds acc = Inr ls"
proof (induction cmds arbitrary: acc)
  case Nil
  show ?case by simp
next
  case (Cons c cmds)
  from Cons.prems have "missing_or_text c" by simp
  then obtain r where r: "command_line c = Inr r"
    using command_line_total by blast
  from Cons.prems have rest: "\<forall>c \<in> set cmds. missing_or_text c" by simp
  show ?case using Cons.IH [OF rest] r by (cases r) simp_all
qed

lemma generateXml_total:
  assumes "\<forall>c \<in> set cmds. missing_or_text c"
  shows "\<exists>xml. generateXml cmds = Inr xml"
proof -
  obtain ls where
    \<open>generateXml_loop cmds [''<?xml version="1.0" encoding="UTF-8"?>'', ''<autorun>''] = Inr ls\<close>
    using generateXml_loop_total [OF assms] by blast
  then show ?thesis by (simp add: generateXml_def)
qed

lemma openmodel_without_file:
  \<open>generateXml [no_fields\<lparr>type := JStr ''openmodel''\<rparr>] =
     Inr ''<?xml version="1.0" encoding="UTF-8"?>\<newline><autorun>\<newline>  <openmodel file="" />\<newline></autorun>''\<close>
  by (simp add: generateXml_def command_line_def no_fields_def)

text \<open>
  Claim C9. \<^verbatim>\<open>escapeXml\<close> returns the empty string for every falsy argument; an
  \<open>openmodel\<close> command with no \<open>file\<close> renders as an element with the attribute
  \<open>file=""\<close>; and \<^verbatim>\<open>generateXml\<close> returns a script, without throwing, for every
  list of commands whose escaped fields are each missing (falsy) or a string.
\<close>

theorem escapeXml_falsy_total:
  \<open>(\<forall>v. \<not> truthy v \<longrightarrow> escapeXml v = Inr []) \<and>
   generateXml [no_fields\<lparr>type := JStr ''openmodel''\<rparr>] =
     Inr ''<?xml version="1.0" encoding="UTF-8"?>\<newline><autorun>\<newline>  <openmodel file="" />\<newline></autorun>'' \<and>
   (\<forall>cmds. (\<forall>c \<in> set cmds. missing_or_text c) \<longrightarrow> (\<exists>xml. generateXml cmds = Inr xml))\<close>
  using escapeXml_falsy openmodel_without_file generateXml_total by blast

theorem escapeXml_falsy_total_witness:
  \<open>\<not> truthy JNull \<and> escapeXml JNull = Inr [] \<and>
   missing_or_text (no_fields\<lparr>type := JStr ''takeoff''\<rparr>) \<and>
   (\<exists>xml. generateXml [no_fields\<lparr>type := JStr ''takeoff''\<rparr>] = Inr xml)\<close>
proof -
  have a: "\<not> truthy JNull" by simp
  have b: \<open>missing_or_text (no_fields\<lparr>type := JStr ''takeoff''\<rparr>)\<close>
    by (simp add: missing_or_text_def str_or_falsy_def no_fields_def)
  then have c: \<open>\<forall>c \<in> set [no_fields\<lparr>type := JStr ''takeoff''\<rparr>]. missing_or_text c\<close>
    by simp
  from escapeXml_falsy_total have
    "\<not> truthy JNull \<longrightarrow> escapeXml JNull = Inr []"
    \<open>(\<forall>c \<in> set [no_fields\<lparr>type := JStr ''takeoff''\<rparr>]. missing_or_text c) \<longrightarrow>
       (\<exists>xml. generateXml [no_fields\<lparr>type := JStr ''takeoff''\<rparr>] = Inr xml)\<close>
    by blast+
  with a b c show ?thesis by blast
qed

subsection \<open>Which fields are escaped\<close>

text \<open>
  Claim C1. The \<open>version\<close> of a \<open>bcfreport\<close> command is interpolated as it is: a
  quote, an angle bracket and an ampersand in it reach the script unescaped.
\<close>

theorem generateXml_version_unescaped:
  \<open>generateXml [no_fields\<lparr>type := JStr ''bcfreport'', file' := JStr ''o.bcf'',
                            version := JStr ''2" x="<&''\<rparr>] =
     Inr ''<?xml version="1.0" encoding="UTF-8"?>\<newline><autorun>\<newline>  <bcfreport file="o.bcf" version="2" x="<&" />\<newline></autorun>''\<close>
  by (simp add: generateXml_def command_line_def no_fields_def escape_chain_def)

subsection \<open>Elements and their attributes\<close>


lemma replace_char_set: "c \<notin> set r \<Longrightarrow> c \<notin> set (replace_char c r s)"
  by (induction s) auto

lemma replace_char_keeps: "d \<notin> set r \<Longrightarrow> d \<notin> set s \<Longrightarrow> d \<notin> set (replace_char c r s)"
  by (induction s) auto

lemma escape_chain_no_quote: \<open>CHR ''"'' \<notin> set (escape_chain s)\<close>
  unfolding escape_chain_def
  by (rule replace_char_keeps, simp, rule replace_char_set, simp)

lemma escape_chain_no_markup:
  \<open>set (escape_chain s) \<inter> {CHR ''<'', CHR ''>'', CHR ''"'', CHR 0x27} = {}\<close>
proof -
  have \<open>CHR ''<'' \<notin> set (escape_chain s)\<close>
    unfolding escape_chain_def
    by (intro replace_char_keeps replace_char_set) simp_all
  moreover have \<open>CHR ''>'' \<notin> set (escape_chain s)\<close>
    unfolding escape_chain_def
    by (intro replace_char_keeps replace_char_set) simp_all
  moreover have \<open>CHR 0x27 \<notin> set (escape_chain s)\<close>
    unfolding escape_chain_def
    by (intro replace_char_set) simp_all
  ultimately show ?thesis using escape_chain_no_quote [of s] by simp
qed






lemma example_rendering:
  \<open>generateXml example_operations =
     Inr ''<?xml version="1.0" encoding="UTF-8"?>\<newline><autorun>\<newline>  <openmodel file="a.ifc" />\<newline>  <openruleset file="r.cset" />\<newline>  <check />\<newline>  <bcfreport file="out.bcf" version="2.1" />\<newline>  <exit />\<newline></autorun>''\<close>
  by (simp add: example_operations_def generateXml_def command_line_def no_fields_def
        escape_chain_def)




section \<open>Properties of the process supervisor\<close>


lemma string_of_nat_small [simp]: "n < 10 \<Longrightarrow> string_of_nat n = [''0123456789'' ! n]"
  by (simp add: string_of_nat.simps)

lemma string_of_nat_big [simp]:
  "10 \<le> n \<Longrightarrow> string_of_nat n = string_of_nat (n div 10) @ [''0123456789'' ! (n mod 10)]"
  by (subst string_of_nat.simps) simp


lemma launch_state:
  assumes "executeAutorun cfg pj uuid fs commands opt = Inr j0"
  shows "promise j0 = None" "timer_pending j0" "signals j0 = []" "out_buf j0 = []"
    "err_buf j0 = []" "job_id j0 = uuid" "xml_path j0 = pj (autorunDir cfg) (uuid @ ''.xml'')"
    "\<exists>xml. generateXml commands = Inr xml \<and> files j0 (xml_path j0) = Some (File xml)"
  using assms
  by (auto simp: executeAutorun_def Let_def bind_res_eq_Inr writeFileSync_def)

lemma run_events_append:
  "run_events cfg (a @ b) j = run_events cfg b (run_events cfg a j)"
  by (induction a arbitrary: j) simp_all

lemma settlements_append:
  "settlements cfg (a @ b) j = settlements cfg a j + settlements cfg b (run_events cfg a j)"
  by (induction a arbitrary: j) simp_all

lemma run_data:
  "\<forall>e \<in> set pre. is_data e \<Longrightarrow>
     run_events cfg pre j =
       j\<lparr>out_buf := out_buf j @ captured_stdout pre, err_buf := err_buf j @ captured_stderr pre\<rparr>"
proof (induction pre arbitrary: j)
  case Nil
  show ?case by simp
next
  case (Cons e pre)
  then show ?case by (cases e) simp_all
qed

lemma settlements_data: "\<forall>e \<in> set pre. is_data e \<Longrightarrow> settlements cfg pre j = 0"
proof (induction pre arbitrary: j)
  case Nil
  show ?case by simp
next
  case (Cons e pre)
  then show ?case by (cases e) simp_all
qed

lemma cleanup_keeps [simp]:
  "promise (cleanup cfg j) = promise j" "timer_pending (cleanup cfg j) = timer_pending j"
  "signals (cleanup cfg j) = signals j" "out_buf (cleanup cfg j) = out_buf j"
  "err_buf (cleanup cfg j) = err_buf j" "job_id (cleanup cfg j) = job_id j"
  "xml_path (cleanup cfg j) = xml_path j"
  by (simp_all add: cleanup_def split: sum.splits)

lemma settled_step: "promise j = Some s \<Longrightarrow> promise (on_event cfg e j) = Some s"
  by (cases e) (simp_all add: settle_def Let_def)

lemma settled_run: "promise j = Some s \<Longrightarrow> promise (run_events cfg es j) = Some s"
  by (induction es arbitrary: j) (simp_all add: settled_step)

lemma settled_settlements: "promise j = Some s \<Longrightarrow> settlements cfg es j = 0"
  by (induction es arbitrary: j) (simp_all add: settled_step)

lemma disarmed_step:
  "\<not> timer_pending j \<Longrightarrow> \<not> timer_pending (on_event cfg e j) \<and> signals (on_event cfg e j) = signals j"
  by (cases e) (simp_all add: settle_def Let_def split: option.splits)

lemma disarmed_run:
  "\<not> timer_pending j \<Longrightarrow> signals (run_events cfg es j) = signals j"
proof (induction es arbitrary: j)
  case Nil
  show ?case by simp
next
  case (Cons e es)
  then show ?case using disarmed_step [of j cfg e] by simp
qed

lemma timer_step:
  assumes "promise j = None" "timer_pending j"
  shows "promise (on_event cfg TimerFired j) =
      Some (Rejected (Error (''Autorun timed out after '' @ string_of_int (timeout cfg) @ ''ms'')))"
    and "signals (on_event cfg TimerFired j) = signals j @ [''SIGTERM'']"
    and "\<not> timer_pending (on_event cfg TimerFired j)"
  using assms by (simp_all add: settle_def)

text \<open>
  Claim C2. When the timer expires on a launched job whose process has only produced
  output so far, the promise is rejected with the timeout error and the process is sent
  \<open>SIGTERM\<close>; whatever events follow (a late \<open>close\<close> among them), the promise keeps
  that value, no further signal is sent, and over the whole run the promise changes
  state exactly once.
\<close>

theorem timeout_settles_once:
  assumes "executeAutorun cfg path_join uuid fs commands opt = Inr j0"
    and "\<forall>e \<in> set pre. is_data e"
  shows "promise (run_events cfg (pre @ [TimerFired]) j0) =
      Some (Rejected (Error (''Autorun timed out after '' @ string_of_int (timeout cfg) @ ''ms'')))
    \<and> signals (run_events cfg (pre @ [TimerFired]) j0) = [''SIGTERM'']
    \<and> (\<forall>later. promise (run_events cfg (pre @ [TimerFired] @ later) j0) =
                  promise (run_events cfg (pre @ [TimerFired]) j0)
              \<and> signals (run_events cfg (pre @ [TimerFired] @ later) j0) = [''SIGTERM'']
              \<and> settlements cfg (pre @ [TimerFired] @ later) j0 = 1)"
proof -
  let ?msg = "Rejected (Error (''Autorun timed out after '' @ string_of_int (timeout cfg) @ ''ms''))"
  define j1 where "j1 = run_events cfg pre j0"
  define j2 where "j2 = on_event cfg TimerFired j1"
  have j1: "promise j1 = None" "timer_pending j1" "signals j1 = []"
    using launch_state [OF assms(1)] by (simp_all add: j1_def run_data [OF assms(2)])
  have p2: "promise j2 = Some ?msg" and s2: "signals j2 = [''SIGTERM'']"
    and t2: "\<not> timer_pending j2"
    using timer_step [OF j1(1) j1(2), of cfg] j1(3) unfolding j2_def by simp_all
  have run2: "run_events cfg (pre @ [TimerFired]) j0 = j2"
    by (simp add: run_events_append j1_def j2_def)
  have later: "promise (run_events cfg (pre @ [TimerFired] @ later) j0) = Some ?msg
      \<and> signals (run_events cfg (pre @ [TimerFired] @ later) j0) = [''SIGTERM'']
      \<and> settlements cfg (pre @ [TimerFired] @ later) j0 = 1" for later
  proof -
    have r: "run_events cfg (pre @ [TimerFired] @ later) j0 = run_events cfg later j2"
      by (simp add: run_events_append j1_def j2_def)
    have "settlements cfg (pre @ [TimerFired] @ later) j0 =
        settlements cfg pre j0 + settlements cfg (TimerFired # later) j1"
      by (simp add: settlements_append j1_def)
    also have "settlements cfg (TimerFired # later) j1 =
        (if promise j2 \<noteq> promise j1 then 1 else 0) + settlements cfg later j2"
      unfolding j2_def by (rule settlements.simps)
    also have "settlements cfg pre j0 + \<dots> = 1"
      using j1(1) p2 by (simp add: settlements_data [OF assms(2)] settled_settlements [OF p2])
    finally show ?thesis
      using settled_run [OF p2, of cfg later] disarmed_run [OF t2, of cfg later] s2 r by simp
  qed
  show ?thesis unfolding run2 using p2 s2 later by simp
qed


lemma example_script_rendered: "generateXml example_operations = Inr example_script"
  using example_rendering by (simp add: example_script_def)

lemma example_launch:
  "executeAutorun test_config slash_join ''j1'' empty_fs example_operations JUndefined
     = Inr example_job"
  by (simp add: executeAutorun_def example_script_rendered test_config_def slash_join_def
        example_job_def Let_def)

lemma example_job_simps [simp]:
  "promise example_job = None" "timer_pending example_job" "signals example_job = []"
  "out_buf example_job = []" "err_buf example_job = []" "job_id example_job = ''j1''"
  "xml_path example_job = ''autorun/j1.xml''"
  "files example_job ''autorun/j1.xml'' = Some (File example_script)"
  by (simp_all add: example_job_def writeFileSync_def)

theorem timeout_settles_once_witness:
  "executeAutorun test_config slash_join ''j1'' empty_fs example_operations JUndefined
     = Inr example_job \<and>
   is_data (StdoutData ''Checking'') \<and>
   promise (run_events test_config ([StdoutData ''Checking''] @ [TimerFired]) example_job) =
     Some (Rejected (Error ''Autorun timed out after 1800000ms'')) \<and>
   signals (run_events test_config ([StdoutData ''Checking''] @ [TimerFired]) example_job)
     = [''SIGTERM''] \<and>
   promise (run_events test_config ([StdoutData ''Checking''] @ [TimerFired] @ [Close None])
      example_job) = Some (Rejected (Error ''Autorun timed out after 1800000ms'')) \<and>
   settlements test_config ([StdoutData ''Checking''] @ [TimerFired] @ [Close None]) example_job = 1"
proof -
  have i: "is_data (StdoutData ''Checking'')" by simp
  then have d: "\<forall>e \<in> set [StdoutData ''Checking'']. is_data e" by simp
  have msg: "''Autorun timed out after '' @ string_of_int (timeout test_config) @ ''ms''
      = ''Autorun timed out after 1800000ms''"
    by (simp add: test_config_def string_of_int_def)
  note th = timeout_settles_once [OF example_launch d, unfolded msg]
  from th have a:
    "promise (run_events test_config ([StdoutData ''Checking''] @ [TimerFired]) example_job) =
       Some (Rejected (Error ''Autorun timed out after 1800000ms''))"
    and b: "signals (run_events test_config ([StdoutData ''Checking''] @ [TimerFired]) example_job)
       = [''SIGTERM'']"
    by blast+
  from th have
    "promise (run_events test_config ([StdoutData ''Checking''] @ [TimerFired] @ [Close None])
        example_job) =
      promise (run_events test_config ([StdoutData ''Checking''] @ [TimerFired]) example_job)"
    and c: "settlements test_config ([StdoutData ''Checking''] @ [TimerFired] @ [Close None])
        example_job = 1"
    by blast+
  with a have e:
    "promise (run_events test_config ([StdoutData ''Checking''] @ [TimerFired] @ [Close None])
        example_job) = Some (Rejected (Error ''Autorun timed out after 1800000ms''))"
    by (rule_tac trans)
  show ?thesis using example_launch i a b c e by blast
qed




lemma close_deletes_script:
  assumes "\<not> keepXmlFiles cfg" "files j (xml_path j) = Some (File xml)"
  shows "files (on_event cfg (Close c) j) (xml_path j) = None"
  using assms
  by (simp add: Let_def settle_def cleanup_def unlinkSync_def split: option.splits)

lemma close_keeps_script:
  assumes "keepXmlFiles cfg"
  shows "files (on_event cfg (Close c) j) = files j"
  using assms by (simp add: Let_def settle_def cleanup_def split: option.splits)

lemma cleanup_failure_harmless:
  "promise (on_event cfg (Close c) (j\<lparr>files := fs\<rparr>)) = promise (on_event cfg (Close c) j)"
  by (simp add: Let_def settle_def split: option.splits)

text \<open>
  Claim C3. With \<open>keepXmlFiles\<close> unset, a job settled by the timer, and a job settled
  by an \<open>error\<close> of the process, still have their script file: only the \<open>close\<close>
  handler deletes it.
\<close>

theorem script_left_behind:
  "\<not> keepXmlFiles test_config \<and>
   executeAutorun test_config slash_join ''j1'' empty_fs example_operations JUndefined
     = Inr example_job \<and>
   promise (run_events test_config [TimerFired] example_job) =
     Some (Rejected (Error ''Autorun timed out after 1800000ms'')) \<and>
   files (run_events test_config [TimerFired] example_job) (xml_path example_job) =
     Some (File example_script) \<and>
   promise (run_events test_config [ProcError ''spawn solibri ENOENT''] example_job) =
     Some (Rejected (Error ''Failed to start Solibri: spawn solibri ENOENT'')) \<and>
   files (run_events test_config [ProcError ''spawn solibri ENOENT''] example_job)
     (xml_path example_job) = Some (File example_script)"
proof -
  have t: "string_of_int (timeout test_config) = ''1800000''"
    by (simp add: test_config_def string_of_int_def)
  have k: "\<not> keepXmlFiles test_config" by (simp add: test_config_def)
  show ?thesis using example_launch t k by (simp add: settle_def)
qed


section \<open>Properties of the messages endpoint\<close>







section \<open>Properties of waiting for the idle state\<close>

lemma timer_delay_pos: "1 \<le> timer_delay ms"
  by (simp add: timer_delay_def)

lemma check_time_step:
  assumes "time_passes env"
  shows "check_time env p s k + 1 \<le> check_time env p s (Suc k)"
proof -
  have "0 \<le> poll_millis env k" "0 \<le> sleep_overrun env k"
    using assms by (simp_all add: time_passes_def)
  with timer_delay_pos [of p] show ?thesis by simp
qed

lemma check_time_grows:
  assumes "time_passes env"
  shows "s + int k \<le> check_time env p s k"
proof (induction k)
  case 0
  show ?case by simp
next
  case (Suc k)
  with check_time_step [OF assms, of p s k] show ?case by simp
qed

lemma check_time_mono:
  assumes "time_passes env" "j \<le> k"
  shows "check_time env p s j \<le> check_time env p s k"
  using assms(2)
proof (induction k)
  case 0
  then show ?case by simp
next
  case (Suc k)
  show ?case
  proof (cases "j = Suc k")
    case True
    then show ?thesis by simp
  next
    case False
    with Suc have "check_time env p s j \<le> check_time env p s k" by simp
    with check_time_step [OF assms(1), of p s k] show ?thesis by simp
  qed
qed

lemma waitLoop_busy_round:
  assumes "check_time env p s n - s < T" "poll_result env n = Busy"
  shows "waitLoop env T p s (check_time env p s n) n (replicate n p) =
         waitLoop env T p s (check_time env p s (Suc n)) (Suc n) (replicate (Suc n) p)"
  by (subst waitLoop.simps) (simp add: assms replicate_append_same)

lemma waitLoop_busy_rounds:
  assumes "\<forall>j < n. check_time env p s j - s < T \<and> poll_result env j = Busy"
  shows "waitLoop env T p s s 0 [] =
         waitLoop env T p s (check_time env p s n) n (replicate n p)"
  using assms
proof (induction n)
  case 0
  show ?case by simp
next
  case (Suc n)
  then have "waitLoop env T p s s 0 [] =
      waitLoop env T p s (check_time env p s n) n (replicate n p)" by simp
  also have "\<dots> = waitLoop env T p s (check_time env p s (Suc n)) (Suc n) (replicate (Suc n) p)"
    using Suc.prems by (intro waitLoop_busy_round) simp_all
  finally show ?case .
qed

lemma wait_idle:
  assumes tp: "time_passes env"
    and idle: "poll_result env k = Idle"
    and busy: "\<forall>j < k. poll_result env j = Busy"
    and intime: "check_time env p s k - s < T"
  shows "waitUntilIdle env T p s =
     Some \<lparr>outcome = Inr True, finished_at = check_time env p s k + poll_millis env k,
            polls = Suc k, sleeps = replicate k p\<rparr>"
proof -
  have "\<forall>j < k. check_time env p s j - s < T \<and> poll_result env j = Busy"
  proof (intro allI impI)
    fix j assume "j < k"
    then have "check_time env p s j \<le> check_time env p s k"
      using check_time_mono [OF tp, of j k p s] by simp
    with intime busy \<open>j < k\<close>
    show "check_time env p s j - s < T \<and> poll_result env j = Busy" by simp
  qed
  then have "waitUntilIdle env T p s =
      waitLoop env T p s (check_time env p s k) k (replicate k p)"
    unfolding waitUntilIdle_def by (rule waitLoop_busy_rounds)
  also have "\<dots> = Some \<lparr>outcome = Inr True, finished_at = check_time env p s k + poll_millis env k,
            polls = Suc k, sleeps = replicate k p\<rparr>"
    by (subst waitLoop.simps) (simp add: idle intime)
  finally show ?thesis .
qed

lemma wait_timeout:
  assumes tp: "time_passes env"
    and busy: "\<forall>j. check_time env p s j - s < T \<longrightarrow> poll_result env j = Busy"
  shows "\<exists>n. waitUntilIdle env T p s =
     Some \<lparr>outcome = Inl (Error (''Solibri did not become idle within '' @
                  string_of_int T @ ''ms'')),
            finished_at = check_time env p s n, polls = n, sleeps = replicate n p\<rparr>
     \<and> s + T \<le> check_time env p s n"
proof -
  define late where "late n \<longleftrightarrow> \<not> check_time env p s n - s < T" for n
  have "T \<le> int (nat T)" by simp
  with check_time_grows [OF tp, of s "nat T" p] have "late (nat T)"
    unfolding late_def by linarith
  define n where "n = (LEAST n. late n)"
  have ln: "late n" unfolding n_def using \<open>late (nat T)\<close> by (rule LeastI)
  have before: "\<not> late j" if "j < n" for j
    using that not_less_Least unfolding n_def by blast
  have "\<forall>j < n. check_time env p s j - s < T \<and> poll_result env j = Busy"
    using before busy by (simp add: late_def)
  then have "waitUntilIdle env T p s =
      waitLoop env T p s (check_time env p s n) n (replicate n p)"
    unfolding waitUntilIdle_def by (rule waitLoop_busy_rounds)
  also have "\<dots> = Some \<lparr>outcome = Inl (Error (''Solibri did not become idle within '' @
                  string_of_int T @ ''ms'')),
            finished_at = check_time env p s n, polls = n, sleeps = replicate n p\<rparr>"
    using ln by (subst waitLoop.simps) (simp add: late_def)
  finally show ?thesis using ln by (auto simp: late_def)
qed


lemma waitLoop_sleeps:
  assumes "waitLoop env T p s now i slept = Some r"
  shows "set slept \<subseteq> {p} \<longrightarrow> set (sleeps r) \<subseteq> {p}"
  by (rule waitLoop.raw_induct
        [where P = "\<lambda>env T p s now i slept r. set slept \<subseteq> {p} \<longrightarrow> set (sleeps r) \<subseteq> {p}",
         OF _ assms])
     (auto split: if_splits poll.splits)

lemma waitUntilIdle_sleeps:
  assumes "waitUntilIdle env T p s = Some r"
  shows "\<forall>d \<in> set (sleeps r). d = p"
  using waitLoop_sleeps [OF assms [unfolded waitUntilIdle_def]] by auto

text \<open>
  Claim C7. With a clock that does not run backwards: when some poll reports not busy,
  all polls before it report busy and its round opens before the deadline, the call
  returns \<open>true\<close> having made no poll after that one; when every poll whose round
  opens before the deadline reports busy, the call ends, throws the timeout error, and
  does so no earlier than the deadline; and every delay a call asks of
  \<^verbatim>\<open>setTimeout\<close> is the \<open>pollIntervalMs\<close> it was given.
\<close>

theorem waitUntilIdle_polls:
  "(time_passes env \<and> poll_result env k = Idle \<and> (\<forall>j < k. poll_result env j = Busy) \<and>
      check_time env pollIntervalMs start k - start < timeoutMs \<longrightarrow>
      (\<exists>r. waitUntilIdle env timeoutMs pollIntervalMs start = Some r \<and>
           outcome r = Inr True \<and> polls r = Suc k)) \<and>
   (time_passes env \<and>
      (\<forall>j. check_time env pollIntervalMs start j - start < timeoutMs
            \<longrightarrow> poll_result env j = Busy) \<longrightarrow>
      (\<exists>r. waitUntilIdle env timeoutMs pollIntervalMs start = Some r \<and>
           outcome r = Inl (Error (''Solibri did not become idle within '' @
                                    string_of_int timeoutMs @ ''ms'')) \<and>
           start + timeoutMs \<le> finished_at r)) \<and>
   (\<forall>r. waitUntilIdle env timeoutMs pollIntervalMs start = Some r \<longrightarrow>
        (\<forall>d \<in> set (sleeps r). d = pollIntervalMs))"
proof (intro conjI impI allI)
  assume "time_passes env \<and> poll_result env k = Idle \<and> (\<forall>j < k. poll_result env j = Busy) \<and>
      check_time env pollIntervalMs start k - start < timeoutMs"
  then show "\<exists>r. waitUntilIdle env timeoutMs pollIntervalMs start = Some r \<and>
           outcome r = Inr True \<and> polls r = Suc k"
    using wait_idle [of env k pollIntervalMs start timeoutMs] by simp
next
  assume "time_passes env \<and>
      (\<forall>j. check_time env pollIntervalMs start j - start < timeoutMs
            \<longrightarrow> poll_result env j = Busy)"
  then show "\<exists>r. waitUntilIdle env timeoutMs pollIntervalMs start = Some r \<and>
           outcome r = Inl (Error (''Solibri did not become idle within '' @
                                    string_of_int timeoutMs @ ''ms'')) \<and>
           start + timeoutMs \<le> finished_at r"
    using wait_timeout [of env pollIntervalMs start timeoutMs] by auto
next
  fix r
  assume "waitUntilIdle env timeoutMs pollIntervalMs start = Some r"
  then show "\<forall>d \<in> set (sleeps r). d = pollIntervalMs"
    by (rule waitUntilIdle_sleeps)
qed

theorem waitUntilIdle_polls_witness:
  "time_passes idle_at_third \<and> poll_result idle_at_third 2 = Idle \<and>
   poll_result idle_at_third 0 = Busy \<and> poll_result idle_at_third 1 = Busy \<and>
   check_time idle_at_third 100 0 2 - 0 < 5000 \<and>
   (\<exists>r. waitUntilIdle idle_at_third 5000 100 0 = Some r \<and> outcome r = Inr True \<and>
        polls r = 3 \<and> set (sleeps r) \<subseteq> {100}) \<and>
   time_passes always_busy \<and> poll_result always_busy = (\<lambda>j. Busy) \<and>
   (\<exists>r. waitUntilIdle always_busy 250 100 0 = Some r \<and>
        outcome r = Inl (Error ''Solibri did not become idle within 250ms'') \<and>
        0 + 250 \<le> finished_at r)"
proof -
  have two: "Suc (Suc 0) = 2" by simp
  have t1: "time_passes idle_at_third" and t2: "time_passes always_busy"
    by (simp_all add: time_passes_def idle_at_third_def always_busy_def)
  have i: "poll_result idle_at_third 2 = Idle" "poll_result idle_at_third 0 = Busy"
    "poll_result idle_at_third 1 = Busy"
    by (simp_all add: idle_at_third_def)
  have b: "\<forall>j < 2. poll_result idle_at_third j = Busy"
    by (simp add: idle_at_third_def)
  have c: "check_time idle_at_third 100 0 2 - 0 < 5000"
    unfolding two [symmetric] by (simp add: idle_at_third_def timer_delay_def)
  have a: "poll_result always_busy = (\<lambda>j. Busy)"
    by (simp add: always_busy_def)
  then have a': "\<forall>j. check_time always_busy 100 0 j - 0 < 250 \<longrightarrow> poll_result always_busy j = Busy"
    by simp
  have msg: "''Solibri did not become idle within '' @ string_of_int 250 @ ''ms''
      = ''Solibri did not become idle within 250ms''"
    by (simp add: string_of_int_def)
  note th1 = waitUntilIdle_polls [of idle_at_third 2 100 0 5000]
  note th2 = waitUntilIdle_polls [of always_busy 0 100 0 250, unfolded msg]
  from th1 t1 i(1) b c obtain r where r:
    "waitUntilIdle idle_at_third 5000 100 0 = Some r" "outcome r = Inr True" "polls r = Suc 2"
    by blast
  with th1 have "\<forall>d \<in> set (sleeps r). d = 100" by blast
  then have "set (sleeps r) \<subseteq> {100}" by auto
  with r have e1: "\<exists>r. waitUntilIdle idle_at_third 5000 100 0 = Some r \<and> outcome r = Inr True \<and>
        polls r = 3 \<and> set (sleeps r) \<subseteq> {100}"
    by simp
  from th2 t2 a' have e2: "\<exists>r. waitUntilIdle always_busy 250 100 0 = Some r \<and>
        outcome r = Inl (Error ''Solibri did not become idle within 250ms'') \<and>
        0 + 250 \<le> finished_at r"
    by blast
  show ?thesis using t1 t2 i c a e1 e2 by blast
qed

section \<open>Properties of the asset listing\<close>












end
